theory Spec2Isabelle
  imports Complex_Main "HOL-Library.Sublist"
begin

section \<open>Strings and the string builtins the converter calls\<close>

text \<open>
  The converter \<^verbatim>\<open>xlsx-to-moodle.py\<close> works on Python strings. A string is
  modelled as a list of characters whose code points are below 256; the regular
  expressions of the source distinguish no character above that range except through
  the classes \<^verbatim>\<open>\s\<close> and \<^verbatim>\<open>\d\<close>, which are given below for the
  code points a \<^typ>\<open>char\<close> has.
\<close>

text \<open>The class \<^verbatim>\<open>[\x00-\x08\x0B\x0C\x0E-\x1F]\<close> of \<^verbatim>\<open>_ctrl_re\<close>.\<close>

definition is_ctrl :: "char \<Rightarrow> bool" where
  "is_ctrl c =
     (let n = (of_char c :: nat)
      in n \<le> 8 \<or> n = 11 \<or> n = 12 \<or> (14 \<le> n \<and> n \<le> 31))"

text \<open>
  Whitespace of \<^verbatim>\<open>\s\<close> and of \<^verbatim>\<open>str.strip()\<close>: the code points
  9 to 13, 28 to 31, 32, 133 and 160.
\<close>

definition is_space :: "char \<Rightarrow> bool" where
  "is_space c =
     (let n = (of_char c :: nat)
      in (9 \<le> n \<and> n \<le> 13) \<or> (28 \<le> n \<and> n \<le> 32) \<or> n = 133 \<or> n = 160)"

text \<open>The class \<^verbatim>\<open>\d\<close>: the ten decimal digits.\<close>

definition is_digit :: "char \<Rightarrow> bool" where
  "is_digit c = (let n = (of_char c :: nat) in 48 \<le> n \<and> n \<le> 57)"

text \<open>\<^verbatim>\<open>s.startswith(p)\<close>.\<close>

fun starts_with :: "string \<Rightarrow> string \<Rightarrow> bool" where
  "starts_with [] s = True"
| "starts_with (p # ps) [] = False"
| "starts_with (p # ps) (c # cs) = (p = c \<and> starts_with ps cs)"

lemma starts_with_length: "starts_with p s \<Longrightarrow> length p \<le> length s"
  by (induction p s rule: starts_with.induct) auto

text \<open>
  \<^verbatim>\<open>s.replace(old, new)\<close> for a non-empty \<open>old\<close>: the occurrences of
  \<open>old\<close> are found from left to right and do not overlap.
\<close>

fun py_replace :: "string \<Rightarrow> string \<Rightarrow> string \<Rightarrow> string" where
  "py_replace old new [] = []"
| "py_replace old new (c # cs) =
     (if old \<noteq> [] \<and> starts_with old (c # cs)
      then new @ py_replace old new (drop (length old - 1) cs)
      else c # py_replace old new cs)"

text \<open>\<^verbatim>\<open>s.strip()\<close>: whitespace is removed at both ends.\<close>

definition py_strip :: "string \<Rightarrow> string" where
  "py_strip s = rev (dropWhile is_space (rev (dropWhile is_space s)))"

text \<open>
  \<^verbatim>\<open>s.split("\n")\<close>: always at least one piece, so the last case of the
  second equation never arises.
\<close>

fun split_nl :: "string \<Rightarrow> string list" where
  "split_nl [] = [[]]"
| "split_nl (c # cs) =
     (if c = CHR 0x0A then [] # split_nl cs
      else (case split_nl cs of l # ls \<Rightarrow> (c # l) # ls | [] \<Rightarrow> [[c]]))"

text \<open>\<^verbatim>\<open>sep.join(parts)\<close>.\<close>

fun py_join :: "string \<Rightarrow> string list \<Rightarrow> string" where
  "py_join sep [] = []"
| "py_join sep [x] = x"
| "py_join sep (x # y # ys) = x @ sep @ py_join sep (y # ys)"

text \<open>
  \<^verbatim>\<open>html.escape(s)\<close> with its default \<^verbatim>\<open>quote=True\<close>: five replacements
  in this order, the ampersand first.
\<close>

definition escape :: "string \<Rightarrow> string" where
  "escape s =
     py_replace [CHR 0x27] ''&#x27;''
       (py_replace [CHR 0x22] ''&quot;''
         (py_replace ''>'' ''&gt;''
           (py_replace ''<'' ''&lt;''
             (py_replace ''&'' ''&amp;'' s))))"

section \<open>The emphasis passes\<close>

text \<open>
  \<^verbatim>\<open>re.sub(r"\*\*(.+?)\*\*", r"<strong>\1</strong>", t)\<close>. The lazy group
  takes at least one character, none of them a newline, and ends at the first
  position where two asterisks follow. \<open>bold_close g r\<close> has read the group \<open>g\<close>
  and looks at the rest \<open>r\<close>; it returns the group and what follows the closing pair.
\<close>

fun bold_close :: "string \<Rightarrow> string \<Rightarrow> (string \<times> string) option" where
  "bold_close g [] = None"
| "bold_close g (c # r) =
     (if starts_with ''**'' (c # r) then Some (g, drop 2 (c # r))
      else if c = CHR 0x0A then None
      else bold_close (g @ [c]) r)"

fun bold_match :: "string \<Rightarrow> (string \<times> string) option" where
  "bold_match (a # b # c # r) =
     (if a = CHR ''*'' \<and> b = CHR ''*'' \<and> c \<noteq> CHR 0x0A then bold_close [c] r else None)"
| "bold_match s = None"

lemma bold_close_length: "bold_close g r = Some (g', r') \<Longrightarrow> length r' < length r"
  by (induction g r rule: bold_close.induct) (auto split: if_splits)

lemma bold_match_length: "bold_match s = Some (g, r) \<Longrightarrow> length r < length s"
  by (cases s rule: bold_match.cases) (auto split: if_splits dest: bold_close_length)

text \<open>
  The substitution scans from the left; after a match it goes on behind the match,
  otherwise it copies one character.
\<close>

function bold_sub :: "string \<Rightarrow> string" where
  "bold_sub [] = []"
| "bold_sub (c # cs) =
     (case bold_match (c # cs) of
        Some (g, rest) \<Rightarrow> ''<strong>'' @ g @ ''</strong>'' @ bold_sub rest
      | None \<Rightarrow> c # bold_sub cs)"
  by pat_completeness auto
termination
  by (relation "measure length") (auto dest: bold_match_length)

text \<open>
  \<^verbatim>\<open>re.sub(r"(?<!\*)\*(?!\*)(.+?)(?<!\*)\*(?!\*)", r"<em>\1</em>", t)\<close>.
  An opening asterisk has no asterisk before or after it. \<open>italic_close l g r\<close> has
  read the group \<open>g\<close>, whose last character is \<open>l\<close>; the group ends at the first
  asterisk that has no asterisk before or after it.
\<close>

fun italic_close :: "char \<Rightarrow> string \<Rightarrow> string \<Rightarrow> (string \<times> string) option" where
  "italic_close l g [] = None"
| "italic_close l g (c # r) =
     (if l \<noteq> CHR ''*'' \<and> c = CHR ''*'' \<and> \<not> starts_with ''*'' r then Some (g, r)
      else if c = CHR 0x0A then None
      else italic_close c (g @ [c]) r)"

text \<open>\<open>p\<close> is the character before the position tried, if there is one.\<close>

fun italic_match :: "char option \<Rightarrow> string \<Rightarrow> (string \<times> string) option" where
  "italic_match p (a # c # r) =
     (if a = CHR ''*'' \<and> p \<noteq> Some (CHR ''*'') \<and> c \<noteq> CHR ''*'' \<and> c \<noteq> CHR 0x0A
      then italic_close c [c] r else None)"
| "italic_match p s = None"

lemma italic_close_length: "italic_close l g r = Some (g', r') \<Longrightarrow> length r' < length r"
  by (induction l g r rule: italic_close.induct) (auto split: if_splits)

lemma italic_match_length: "italic_match p s = Some (g, r) \<Longrightarrow> length r < length s"
  by (cases "(p, s)" rule: italic_match.cases) (auto split: if_splits dest: italic_close_length)

function italic_from :: "char option \<Rightarrow> string \<Rightarrow> string" where
  "italic_from p [] = []"
| "italic_from p (c # cs) =
     (case italic_match p (c # cs) of
        Some (g, rest) \<Rightarrow> ''<em>'' @ g @ ''</em>'' @ italic_from (Some (CHR ''*'')) rest
      | None \<Rightarrow> c # italic_from (Some c) cs)"
  by pat_completeness auto
termination
  by (relation "measure (\<lambda>(p, s). length s)") (auto dest: italic_match_length)

definition italic_sub :: "string \<Rightarrow> string" where
  "italic_sub s = italic_from None s"

section \<open>The line scan\<close>

text \<open>
  \<^verbatim>\<open>re.match(r"^\s*-\s+", line)\<close> and the \<^verbatim>\<open>re.sub\<close> of the same
  pattern by the empty string: \<open>ul_rest\<close> is what follows the marker, when the line
  has one.
\<close>

definition ul_rest :: "string \<Rightarrow> string option" where
  "ul_rest line =
     (case dropWhile is_space line of
        c # r \<Rightarrow>
          if c = CHR ''-'' \<and> r \<noteq> [] \<and> is_space (hd r) then Some (dropWhile is_space r)
          else None
      | [] \<Rightarrow> None)"

text \<open>The same for \<^verbatim>\<open>r"^\s*\d+[\.\)]\s+"\<close>.\<close>

definition ol_rest :: "string \<Rightarrow> string option" where
  "ol_rest line =
     (let s = dropWhile is_space line; ds = takeWhile is_digit s
      in if ds = [] then None
         else (case dropWhile is_digit s of
                 c # r \<Rightarrow>
                   if (c = CHR ''.'' \<or> c = CHR '')'') \<and> r \<noteq> [] \<and> is_space (hd r)
                   then Some (dropWhile is_space r) else None
               | [] \<Rightarrow> None))"

definition is_ul :: "string \<Rightarrow> bool" where
  "is_ul line = (ul_rest line \<noteq> None)"

definition is_ol :: "string \<Rightarrow> bool" where
  "is_ol line = (ol_rest line \<noteq> None)"

text \<open>One list item: the marker removed, the content stripped.\<close>

definition ul_item :: "string \<Rightarrow> string" where
  "ul_item line = ''<li>'' @ py_strip (the (ul_rest line)) @ ''</li>''"

definition ol_item :: "string \<Rightarrow> string" where
  "ol_item line = ''<li>'' @ py_strip (the (ol_rest line)) @ ''</li>''"

definition ul_block :: "string list \<Rightarrow> string" where
  "ul_block run = ''<ul>'' @ concat (map ul_item run) @ ''</ul>''"

definition ol_block :: "string list \<Rightarrow> string" where
  "ol_block run = ''<ol>'' @ concat (map ol_item run) @ ''</ol>''"

text \<open>
  The \<^verbatim>\<open>while i < len(lines)\<close> loop: the inner loops take the lines while they
  match, so a block holds a whole run.
\<close>

function scan_lines :: "string list \<Rightarrow> string list" where
  "scan_lines [] = []"
| "scan_lines (l # ls) =
     (if is_ul l then ul_block (takeWhile is_ul (l # ls)) # scan_lines (dropWhile is_ul (l # ls))
      else if is_ol l then ol_block (takeWhile is_ol (l # ls)) # scan_lines (dropWhile is_ol (l # ls))
      else l # scan_lines ls)"
  by pat_completeness auto
termination
  by (relation "measure length") (auto simp: length_dropWhile_le less_Suc_eq_le)

section \<open>Collapsing line breaks\<close>

text \<open>
  \<^verbatim>\<open>re.sub(r"(?:<br/>\s*){3,}", "<br/><br/>", html)\<close>. \<open>br_run s\<close> counts how
  often \<^verbatim>\<open><br/>\s*\<close> matches at the start of \<open>s\<close>, greedily, and returns
  the rest.
\<close>

function br_run :: "string \<Rightarrow> nat \<times> string" where
  "br_run s =
     (if starts_with ''<br/>'' s
      then (case br_run (dropWhile is_space (drop 5 s)) of (n, r) \<Rightarrow> (Suc n, r))
      else (0, s))"
  by pat_completeness auto
termination
proof (relation "measure length")
  fix s :: string
  assume "starts_with ''<br/>'' s"
  then have "5 \<le> length s"
    by (auto dest: starts_with_length)
  moreover have "length (dropWhile is_space (drop 5 s)) \<le> length (drop 5 s)"
    by (rule length_dropWhile_le)
  ultimately show "(dropWhile is_space (drop 5 s), s) \<in> measure length"
    by simp
qed simp

declare br_run.simps [simp del]

lemma br_run_length: "br_run s = (n, r) \<Longrightarrow> length r \<le> length s"
proof (induction s arbitrary: n r rule: br_run.induct)
  case (1 s)
  show ?case
  proof (cases "starts_with ''<br/>'' s")
    case True
    obtain n' r' where run: "br_run (dropWhile is_space (drop 5 s)) = (n', r')"
      by (cases "br_run (dropWhile is_space (drop 5 s))") auto
    from True run "1.prems" have "r = r'"
      by (subst (asm) br_run.simps) simp
    moreover from "1.IH" [OF True run]
    have "length r' \<le> length (dropWhile is_space (drop 5 s))" .
    moreover have "length (dropWhile is_space (drop 5 s)) \<le> length (drop 5 s)"
      by (rule length_dropWhile_le)
    ultimately show ?thesis by simp
  next
    case False
    with "1.prems" show ?thesis
      by (subst (asm) br_run.simps) simp
  qed
qed

lemma br_run_pos_length: "br_run s = (Suc n, r) \<Longrightarrow> length r < length s"
proof -
  assume run: "br_run s = (Suc n, r)"
  then have start: "starts_with ''<br/>'' s"
    by (subst (asm) br_run.simps) (auto split: if_splits)
  then have "5 \<le> length s"
    by (auto dest: starts_with_length)
  obtain n' r' where run': "br_run (dropWhile is_space (drop 5 s)) = (n', r')"
    by (cases "br_run (dropWhile is_space (drop 5 s))") auto
  from run start run' have "r = r'"
    by (subst (asm) br_run.simps) simp
  moreover from br_run_length [OF run']
  have "length r' \<le> length (dropWhile is_space (drop 5 s))" .
  moreover have "length (dropWhile is_space (drop 5 s)) \<le> length (drop 5 s)"
    by (rule length_dropWhile_le)
  ultimately show ?thesis using \<open>5 \<le> length s\<close> by simp
qed

function collapse_breaks :: "string \<Rightarrow> string" where
  "collapse_breaks [] = []"
| "collapse_breaks (c # cs) =
     (case br_run (c # cs) of
        (n, r) \<Rightarrow>
          if 3 \<le> n then ''<br/><br/>'' @ collapse_breaks r
          else c # collapse_breaks cs)"
  by pat_completeness auto
termination
proof (relation "measure length")
  fix c :: char and cs r :: string and n :: nat
  assume "(n, r) = br_run (c # cs)" and "3 \<le> n"
  then obtain k where "br_run (c # cs) = (Suc k, r)"
    by (cases n) (auto dest: sym)
  then show "(r, c # cs) \<in> measure length"
    by (auto dest: br_run_pos_length)
qed simp_all

text \<open>
  Two neighbouring pieces of a list of lines cut a run when the last line of the first
  and the first line of the second are list lines of the same kind.
\<close>

definition cuts_run :: "string list \<Rightarrow> string list \<Rightarrow> bool" where
  "cuts_run xs ys =
     (xs \<noteq> [] \<and> ys \<noteq> [] \<and>
      ((is_ul (last xs) \<and> is_ul (hd ys)) \<or> (is_ol (last xs) \<and> is_ol (hd ys))))"

section \<open>The values of a cell\<close>

text \<open>
  A Python float is modelled by the decimal number that \<^verbatim>\<open>repr\<close> prints for
  it: \<open>Finite s m e\<close> stands for \<open>(-1)\<^sup>s \<cdot> m \<cdot> 10\<^sup>e\<close>. Two doubles
  that differ print differently, and rounding to the nearest double is monotone, so the
  order of these decimals is the order of the doubles. The source does no arithmetic on
  floats but for the constant \<^verbatim>\<open>100.0 - 1e-6\<close>, which Python prints as
  \<^verbatim>\<open>99.999999\<close>.
\<close>

datatype pyfloat = Finite bool nat int | Infinity bool | NaN

definition dec_val :: "bool \<Rightarrow> nat \<Rightarrow> int \<Rightarrow> rat" where
  "dec_val s m e = (if s then - 1 else 1) * of_nat m * (10 powi e)"

text \<open>\<^verbatim>\<open>x < y\<close> on floats: false as soon as one side is not a number.\<close>

fun float_lt :: "pyfloat \<Rightarrow> pyfloat \<Rightarrow> bool" where
  "float_lt NaN y = False"
| "float_lt x NaN = False"
| "float_lt (Infinity s) (Infinity t) = (s \<and> \<not> t)"
| "float_lt (Infinity s) (Finite t n f) = s"
| "float_lt (Finite s m e) (Infinity t) = (\<not> t)"
| "float_lt (Finite s m e) (Finite t n f) = (dec_val s m e < dec_val t n f)"

text \<open>\<^verbatim>\<open>x == y\<close> on floats.\<close>

fun float_eq :: "pyfloat \<Rightarrow> pyfloat \<Rightarrow> bool" where
  "float_eq NaN y = False"
| "float_eq x NaN = False"
| "float_eq (Infinity s) (Infinity t) = (s = t)"
| "float_eq (Infinity s) (Finite t n f) = False"
| "float_eq (Finite s m e) (Infinity t) = False"
| "float_eq (Finite s m e) (Finite t n f) = (dec_val s m e = dec_val t n f)"

text \<open>\<^verbatim>\<open>x >= y\<close> on floats.\<close>

definition float_ge :: "pyfloat \<Rightarrow> pyfloat \<Rightarrow> bool" where
  "float_ge x y = (float_lt y x \<or> float_eq x y)"

text \<open>The decimal digits of a natural number, and \<^verbatim>\<open>str\<close> of an integer.\<close>

definition digit_char :: "nat \<Rightarrow> char" where
  "digit_char d = ''0123456789'' ! (d mod 10)"

fun digits_of :: "nat \<Rightarrow> string" where
  "digits_of n = (if n < 10 then [digit_char n] else digits_of (n div 10) @ [digit_char (n mod 10)])"

declare digits_of.simps [simp del]

definition int_str :: "int \<Rightarrow> string" where
  "int_str n = (if n < 0 then ''-'' @ digits_of (nat (- n)) else digits_of (nat n))"

text \<open>
  \<^verbatim>\<open>repr\<close> of a float, which is what \<^verbatim>\<open>str\<close> gives. The digits are
  those of the mantissa without its trailing zeros; with \<open>n\<close> digits and the exponent
  \<open>e\<close> the decimal point stands \<open>decpt = e + n\<close> places behind the first digit.
  CPython (\<^verbatim>\<open>format_float_short\<close>, format code \<^verbatim>\<open>r\<close>) prints the
  exponent form when \<^verbatim>\<open>decpt <= -4 || decpt > 16\<close>, and otherwise the plain
  form, to which it adds \<^verbatim>\<open>.0\<close> when no digit follows the point.
\<close>

function norm_dec :: "nat \<Rightarrow> int \<Rightarrow> nat \<times> int" where
  "norm_dec m e = (if m \<noteq> 0 \<and> m mod 10 = 0 then norm_dec (m div 10) (e + 1) else (m, e))"
  by pat_completeness auto
termination
  by (relation "measure fst") auto

declare norm_dec.simps [simp del]

definition exp_str :: "int \<Rightarrow> string" where
  "exp_str x =
     (if x < 0 then ''e-'' else ''e+'')
       @ (if \<bar>x\<bar> < 10 then ''0'' else []) @ digits_of (nat \<bar>x\<bar>)"

definition exp_form :: "string \<Rightarrow> int \<Rightarrow> string" where
  "exp_form ds decpt =
     (if length ds = 1 then ds else take 1 ds @ ''.'' @ drop 1 ds) @ exp_str (decpt - 1)"

definition plain_form :: "string \<Rightarrow> int \<Rightarrow> string" where
  "plain_form ds decpt =
     (if decpt \<le> 0 then ''0.'' @ replicate (nat (- decpt)) (CHR ''0'') @ ds
      else if int (length ds) \<le> decpt
        then ds @ replicate (nat (decpt - int (length ds))) (CHR ''0'') @ ''.0''
      else take (nat decpt) ds @ ''.'' @ drop (nat decpt) ds)"

definition decpt_of :: "nat \<Rightarrow> int \<Rightarrow> int" where
  "decpt_of m e = (case norm_dec m e of (m', e') \<Rightarrow> e' + int (length (digits_of m')))"

definition float_repr :: "pyfloat \<Rightarrow> string" where
  "float_repr x =
     (case x of
        NaN \<Rightarrow> ''nan''
      | Infinity s \<Rightarrow> (if s then ''-inf'' else ''inf'')
      | Finite s m e \<Rightarrow>
          (if s then ''-'' else []) @
          (if m = 0 then ''0.0''
           else (case norm_dec m e of
                   (m', e') \<Rightarrow>
                     let ds = digits_of m'; decpt = e' + int (length ds)
                     in if decpt \<le> - 4 \<or> 16 < decpt then exp_form ds decpt
                        else plain_form ds decpt)))"

text \<open>
  A cell of the row table: \<^verbatim>\<open>None\<close>, a boolean, an integer, a float (the
  table's marker of a missing value is the float NaN) or a string.
\<close>

datatype cell = CNone | CBool bool | CInt int | CFloat pyfloat | CStr string

text \<open>\<^verbatim>\<open>str(x)\<close>.\<close>

definition py_str :: "cell \<Rightarrow> string" where
  "py_str x =
     (case x of
        CNone \<Rightarrow> ''None''
      | CBool b \<Rightarrow> (if b then ''True'' else ''False'')
      | CInt n \<Rightarrow> int_str n
      | CFloat f \<Rightarrow> float_repr f
      | CStr s \<Rightarrow> s)"

text \<open>The truth value of a cell, as \<^verbatim>\<open>not x\<close> reads it.\<close>

definition py_truthy :: "cell \<Rightarrow> bool" where
  "py_truthy x =
     (case x of
        CNone \<Rightarrow> False
      | CBool b \<Rightarrow> b
      | CInt n \<Rightarrow> n \<noteq> 0
      | CFloat f \<Rightarrow> (case f of Finite s m e \<Rightarrow> m \<noteq> 0 | _ \<Rightarrow> True)
      | CStr s \<Rightarrow> s \<noteq> [])"

text \<open>\<^verbatim>\<open>isinstance(x, float) and pd.isna(x)\<close>.\<close>

definition is_nan_float :: "cell \<Rightarrow> bool" where
  "is_nan_float x = (x = CFloat NaN)"

section \<open>The translator\<close>

text \<open>\<^verbatim>\<open>_ctrl_re.sub("", s)\<close> on a string.\<close>

definition remove_ctrl :: "string \<Rightarrow> string" where
  "remove_ctrl s = filter (\<lambda>c. \<not> is_ctrl c) s"

text \<open>\<^verbatim>\<open>strip_control\<close>: only \<^verbatim>\<open>None\<close> is special, every other value goes through \<^verbatim>\<open>str\<close>.\<close>

definition strip_control :: "cell \<Rightarrow> string" where
  "strip_control s = (if s = CNone then [] else remove_ctrl (py_str s))"

text \<open>
  \<^verbatim>\<open>convert_markup_to_html\<close>, statement by statement: sanitise and normalise,
  escape, bold, italic, the line scan, the join, the collapse of line breaks.
\<close>

definition convert_markup_to_html :: "cell \<Rightarrow> string" where
  "convert_markup_to_html text_arg =
     (if text_arg = CNone then []
      else
        (let t = py_replace [CHR 0x0D] [CHR 0x0A]
                   (py_replace [CHR 0x0D, CHR 0x0A] [CHR 0x0A] (strip_control text_arg));
             t = py_replace ''[br]'' [CHR 0x0A] t;
             t = escape t;
             t = bold_sub t;
             t = italic_sub t;
             html_lines = scan_lines (split_nl t);
             html = py_join ''<br/>'' html_lines
         in collapse_breaks html))"

section \<open>Coercion of fields\<close>

text \<open>
  Three builtins of Python are not defined here but taken as parameters, because their
  results depend on the binary value of a double: \<^verbatim>\<open>float(n)\<close> of an integer,
  \<^verbatim>\<open>float(s)\<close> of a string (\<open>None\<close> when it raises) and the format
  \<^verbatim>\<open>f"{x:.2f}"\<close>. Every theorem below holds for all of them.
\<close>

record pybuiltins =
  float_of_int :: "int \<Rightarrow> pyfloat option"
  float_of_str :: "string \<Rightarrow> pyfloat option"
  format_2f :: "pyfloat \<Rightarrow> string"

text \<open>\<^verbatim>\<open>float(x)\<close>; \<open>None\<close> when it raises.\<close>

definition py_float :: "pybuiltins \<Rightarrow> cell \<Rightarrow> pyfloat option" where
  "py_float py x =
     (case x of
        CNone \<Rightarrow> None
      | CBool b \<Rightarrow> Some (Finite False (if b then 1 else 0) 0)
      | CInt n \<Rightarrow> float_of_int py n
      | CFloat f \<Rightarrow> Some f
      | CStr s \<Rightarrow> float_of_str py s)"

definition is_blank_str :: "cell \<Rightarrow> bool" where
  "is_blank_str x = (case x of CStr s \<Rightarrow> py_strip s = [] | _ \<Rightarrow> False)"

text \<open>\<^verbatim>\<open>clean_float(x, default)\<close>; the default may be \<^verbatim>\<open>None\<close>.\<close>

definition clean_float :: "pybuiltins \<Rightarrow> cell \<Rightarrow> pyfloat option \<Rightarrow> pyfloat option" where
  "clean_float py x dflt =
     (if x = CNone \<or> is_nan_float x \<or> is_blank_str x then dflt
      else (case py_float py x of Some f \<Rightarrow> Some f | None \<Rightarrow> dflt))"

text \<open>\<^verbatim>\<open>s.lower()\<close> on the code points below 256.\<close>

definition lower_char :: "char \<Rightarrow> char" where
  "lower_char c =
     (let n = (of_char c :: nat)
      in if (65 \<le> n \<and> n \<le> 90) \<or> (192 \<le> n \<and> n \<le> 222 \<and> n \<noteq> 215)
         then char_of (n + 32) else c)"

definition py_lower :: "string \<Rightarrow> string" where
  "py_lower s = map lower_char s"

text \<open>\<^verbatim>\<open>clean_bool(x, default)\<close>.\<close>

definition clean_bool :: "cell \<Rightarrow> bool \<Rightarrow> bool" where
  "clean_bool x dflt =
     (case x of
        CBool b \<Rightarrow> b
      | _ \<Rightarrow>
          if x = CNone \<or> is_nan_float x then dflt
          else
            (let s = py_lower (py_strip (py_str x))
             in if s \<in> set [''true'', ''t'', ''1'', ''yes'', ''y''] then True
                else if s \<in> set [''false'', ''f'', ''0'', ''no'', ''n''] then False
                else dflt))"

section \<open>The question of one row\<close>

text \<open>An element of the output tree: tag, attributes, text, children in order.\<close>

datatype xml =
  Element (xml_tag: string) (xml_attrib: "(string \<times> string) list")
    (xml_text: "string option") (xml_children: "xml list")

text \<open>\<^verbatim>\<open>node.findall(tag)\<close>, \<^verbatim>\<open>node.find(tag)\<close> and \<^verbatim>\<open>node.get(key)\<close>.\<close>

definition xml_findall :: "string \<Rightarrow> xml \<Rightarrow> xml list" where
  "xml_findall t node = filter (\<lambda>c. xml_tag c = t) (xml_children node)"

definition xml_find :: "string \<Rightarrow> xml \<Rightarrow> xml option" where
  "xml_find t node = (case xml_findall t node of [] \<Rightarrow> None | c # cs \<Rightarrow> Some c)"

definition xml_get :: "xml \<Rightarrow> string \<Rightarrow> string option" where
  "xml_get node k = map_of (xml_attrib node) k"

text \<open>\<^verbatim>\<open>node.findtext("a/b")\<close> for a path of two tags.\<close>

definition xml_findtext2 :: "string \<Rightarrow> string \<Rightarrow> xml \<Rightarrow> string option" where
  "xml_findtext2 a b node =
     (case xml_find a node of
        None \<Rightarrow> None
      | Some c \<Rightarrow> (case xml_find b c of None \<Rightarrow> None | Some d \<Rightarrow> xml_text d))"

text \<open>
  A row of the table maps column names to cells; \<^verbatim>\<open>qrow.get(key)\<close> is
  \<^verbatim>\<open>None\<close> for a column the table does not have.
\<close>

type_synonym row = "string \<Rightarrow> cell option"

definition row_get :: "row \<Rightarrow> string \<Rightarrow> cell" where
  "row_get qrow k = (case qrow k of None \<Rightarrow> CNone | Some v \<Rightarrow> v)"

definition row_get_or :: "row \<Rightarrow> string \<Rightarrow> cell \<Rightarrow> cell" where
  "row_get_or qrow k d = (case qrow k of None \<Rightarrow> d | Some v \<Rightarrow> v)"

text \<open>The column names \<^verbatim>\<open>f"Fraction{i}"\<close> and the like.\<close>

definition col :: "string \<Rightarrow> nat \<Rightarrow> string" where
  "col base i = base @ digits_of i"

text \<open>The float constants of the source.\<close>

definition float_0 :: pyfloat where "float_0 = Finite False 0 0"
definition float_5 :: pyfloat where "float_5 = Finite False 5 0"
definition float_100 :: pyfloat where "float_100 = Finite False 100 0"
definition float_neg100 :: pyfloat where "float_neg100 = Finite True 100 0"

text \<open>\<^verbatim>\<open>100.0 - 1e-6\<close>, the double that prints as 99.999999.\<close>

definition single_threshold :: pyfloat where
  "single_threshold = Finite False 99999999 (- 6)"

text \<open>
  \<^verbatim>\<open>clean_float(x, default=0.0)\<close> followed by
  \<^verbatim>\<open>if frac is None: frac = 0.0\<close>. With a float as default the result of
  \<^verbatim>\<open>clean_float\<close> is never \<^verbatim>\<open>None\<close>, so the list of line 142 holds
  the same values.
\<close>

definition coerce_fraction :: "pybuiltins \<Rightarrow> cell \<Rightarrow> pyfloat" where
  "coerce_fraction py x =
     (case clean_float py x (Some float_0) of Some f \<Rightarrow> f | None \<Rightarrow> float_0)"

definition fractions :: "pybuiltins \<Rightarrow> row \<Rightarrow> pyfloat list" where
  "fractions py qrow = map (\<lambda>i. coerce_fraction py (row_get qrow (col ''Fraction'' i))) [1..<6]"

text \<open>
  \<^verbatim>\<open>max(xs)\<close> keeps the first element until a later one is greater;
  \<^verbatim>\<open>max(a, b)\<close> and \<^verbatim>\<open>min(a, b)\<close> return \<open>a\<close> unless \<open>b\<close> is
  greater, respectively smaller.
\<close>

fun py_max_from :: "pyfloat \<Rightarrow> pyfloat list \<Rightarrow> pyfloat" where
  "py_max_from cur [] = cur"
| "py_max_from cur (x # xs) = py_max_from (if float_lt cur x then x else cur) xs"

definition py_max_list :: "pyfloat list \<Rightarrow> pyfloat" where
  "py_max_list xs = (case xs of [] \<Rightarrow> float_0 | x # rest \<Rightarrow> py_max_from x rest)"

definition py_max2 :: "pyfloat \<Rightarrow> pyfloat \<Rightarrow> pyfloat" where
  "py_max2 a b = (if float_lt a b then b else a)"

definition py_min2 :: "pyfloat \<Rightarrow> pyfloat \<Rightarrow> pyfloat" where
  "py_min2 a b = (if float_lt b a then b else a)"

text \<open>
  \<^verbatim>\<open>xs.count(v)\<close> counts the elements that are \<open>v\<close> itself or equal to it.
  Identity matters for a NaN only, and \<open>v\<close> is the maximum here: a NaN maximum fails
  the comparison with the threshold whatever the count is.
\<close>

definition py_count :: "pyfloat list \<Rightarrow> pyfloat \<Rightarrow> nat" where
  "py_count xs v = length (filter (\<lambda>x. float_eq x v) xs)"

text \<open>Lines 142 to 144: the decision between a single and a multiple answer.\<close>

definition is_single :: "pyfloat list \<Rightarrow> bool" where
  "is_single fs =
     (let max_frac = py_max_list fs
      in py_count fs max_frac = 1 \<and> float_ge max_frac single_threshold)"

text \<open>Line 168: the clamp of a fraction.\<close>

definition clamp_fraction :: "pyfloat \<Rightarrow> pyfloat" where
  "clamp_fraction x = py_max2 float_neg100 (py_min2 float_100 x)"

definition bool_text :: "bool \<Rightarrow> string" where
  "bool_text b = (if b then ''true'' else ''false'')"

text \<open>A child that holds a text only, and the body of the loop over the five choices.\<close>

definition text_node :: "string \<Rightarrow> string \<Rightarrow> xml" where
  "text_node t s = Element t [] (Some s) []"

definition answer_node :: "pybuiltins \<Rightarrow> row \<Rightarrow> nat \<Rightarrow> xml" where
  "answer_node py qrow i =
     (let choice_text = row_get qrow (col ''Choice'' i);
          choice_html = convert_markup_to_html (CStr (strip_control choice_text));
          fraction = clamp_fraction (coerce_fraction py (row_get qrow (col ''Fraction'' i)));
          cfb = row_get qrow (col ''ChoiceFeedback'' i);
          cfb_html = convert_markup_to_html (CStr (strip_control cfb))
      in Element ''answer'' [(''fraction'', float_repr fraction), (''format'', ''html'')] None
           [text_node ''text'' choice_html,
            Element ''feedback'' [(''format'', ''html'')] None [text_node ''text'' cfb_html]])"

text \<open>
  \<^verbatim>\<open>question_multichoice_xml(qrow, index, category_name)\<close>. The default grade
  has a float as default, so the second case of its \<open>case\<close> never arises.
\<close>

definition question_multichoice_xml :: "pybuiltins \<Rightarrow> row \<Rightarrow> int \<Rightarrow> string \<Rightarrow> xml" where
  "question_multichoice_xml py qrow index category_name =
     (let name_val = row_get qrow ''Name'';
          name_val = (if \<not> py_truthy name_val \<or> is_nan_float name_val
                      then CStr (''Q'' @ int_str (index + 1)) else name_val);
          qtext_html = convert_markup_to_html
                         (CStr (py_strip (py_str (row_get_or qrow ''Question'' (CStr [])))));
          defaultgrade = (case clean_float py (row_get qrow ''DefaultGrade'') (Some float_5) of
                            Some g \<Rightarrow> format_2f py g | None \<Rightarrow> []);
          single = is_single (fractions py qrow);
          shuffle = clean_bool (row_get qrow ''Shuffle'') True;
          gf = row_get qrow ''GeneralFeedback'';
          gf_html = convert_markup_to_html (CStr (strip_control gf))
      in Element ''question'' [(''type'', ''multichoice'')] None
           ([Element ''name'' [] None [text_node ''text'' (strip_control name_val)],
             Element ''questiontext'' [(''format'', ''html'')] None [text_node ''text'' qtext_html],
             text_node ''defaultgrade'' defaultgrade,
             text_node ''penalty'' ''0.0'',
             text_node ''single'' (bool_text single),
             text_node ''shuffleanswers'' (bool_text shuffle),
             text_node ''answernumbering'' ''ABCD'',
             Element ''generalfeedback'' [(''format'', ''html'')] None [text_node ''text'' gf_html]]
            @ map (answer_node py qrow) [1..<6]))"

section \<open>The document\<close>

text \<open>\<^verbatim>\<open>add_category\<close>: the node it appends to the root.\<close>

definition add_category :: "string \<Rightarrow> xml" where
  "add_category category_name =
     (let cattext = (if category_name \<noteq> [] then ''$course$/'' @ category_name
                     else ''$course$/Default'')
      in Element ''question'' [(''type'', ''category'')] None
           [Element ''category'' [] None [text_node ''text'' cattext]])"

text \<open>
  \<^verbatim>\<open>excel_to_moodle_xml\<close> between reading the table and writing the tree:
  the root, the category, then one question for each row, the rows numbered from 0 as
  \<^verbatim>\<open>df.iterrows()\<close> numbers them.
\<close>

definition excel_to_moodle_xml :: "pybuiltins \<Rightarrow> row list \<Rightarrow> string \<Rightarrow> xml" where
  "excel_to_moodle_xml py rows category =
     Element ''quiz'' [] None
       (add_category category
        # map (\<lambda>(idx, r). question_multichoice_xml py r (int idx) category)
            (enumerate 0 rows))"

text \<open>
  A value for the three builtins, for rows that are evaluated below. Those rows hold
  floats where a number is read, and the statements about them do not look at the
  default grade, so none of its three functions is ever applied there.
\<close>

definition sample_builtins :: pybuiltins where
  "sample_builtins =
     \<lparr>float_of_int = (\<lambda>n. None), float_of_str = (\<lambda>s. None), format_2f = (\<lambda>x. [])\<rparr>"

section \<open>The line scan groups runs into blocks\<close>

lemma is_space_simps [simp]:
  "\<not> is_space (CHR ''-'')" "\<not> is_space (CHR ''.'')" "\<not> is_space (CHR '')'')"
  by (simp_all add: is_space_def)

lemma is_digit_minus [simp]: "\<not> is_digit (CHR ''-'')"
  by (simp add: is_digit_def)

lemma digit_not_space: "is_digit c \<Longrightarrow> \<not> is_space c"
  by (auto simp: is_digit_def is_space_def Let_def)

lemma ul_not_ol: "is_ul l \<Longrightarrow> \<not> is_ol l"
  by (cases "dropWhile is_space l")
    (auto simp: is_ul_def is_ol_def ul_rest_def ol_rest_def Let_def split: if_splits list.splits)

lemma scan_lines_ul_run:
  assumes "run \<noteq> []" and "\<forall>l \<in> set run. is_ul l" and "post = [] \<or> \<not> is_ul (hd post)"
  shows "scan_lines (run @ post) = ul_block run # scan_lines post"
proof -
  obtain l ls where run: "run = l # ls"
    using assms(1) by (cases run) auto
  have tw: "takeWhile is_ul (run @ post) = run"
    using assms(2,3) by (cases post) (auto simp: takeWhile_append2 takeWhile_eq_all_conv)
  have dw: "dropWhile is_ul (run @ post) = post"
    using assms(2,3) by (cases post) (auto simp: dropWhile_append2)
  have "is_ul l" using assms(2) run by simp
  then show ?thesis
    using tw dw unfolding run by simp
qed

lemma scan_lines_ol_run:
  assumes "run \<noteq> []" and "\<forall>l \<in> set run. is_ol l" and "post = [] \<or> \<not> is_ol (hd post)"
  shows "scan_lines (run @ post) = ol_block run # scan_lines post"
proof -
  obtain l ls where run: "run = l # ls"
    using assms(1) by (cases run) auto
  have tw: "takeWhile is_ol (run @ post) = run"
    using assms(2,3) by (cases post) (auto simp: takeWhile_append2 takeWhile_eq_all_conv)
  have dw: "dropWhile is_ol (run @ post) = post"
    using assms(2,3) by (cases post) (auto simp: dropWhile_append2)
  have "is_ol l" "\<not> is_ul l" using assms(2) run ul_not_ol by auto
  then show ?thesis
    using tw dw unfolding run by simp
qed

text \<open>The scan of a text is the scan of its parts, wherever no run is cut.\<close>

lemma scan_lines_append:
  "\<not> cuts_run xs ys \<Longrightarrow> scan_lines (xs @ ys) = scan_lines xs @ scan_lines ys"
proof (induction xs rule: scan_lines.induct)
  case 1
  show ?case by simp
next
  case (2 l ls)
  let ?xs = "l # ls"
  show ?case
  proof (cases "is_ul l")
    case True
    show ?thesis
    proof (cases "\<forall>x \<in> set ?xs. is_ul x")
      case all: True
      then have "is_ul (last ?xs)" by (metis last_in_set list.distinct(1))
      with "2.prems" have "ys = [] \<or> \<not> is_ul (hd ys)"
        by (auto simp: cuts_run_def)
      with all have "scan_lines (?xs @ ys) = ul_block ?xs # scan_lines ys"
        by (intro scan_lines_ul_run) auto
      moreover from all have "scan_lines (?xs @ []) = ul_block ?xs # scan_lines []"
        by (intro scan_lines_ul_run) auto
      ultimately show ?thesis by simp
    next
      case False
      then obtain x where ex: "x \<in> set ?xs" "\<not> is_ul x" by blast
      have tw: "takeWhile is_ul (?xs @ ys) = takeWhile is_ul ?xs"
        using ex by (rule takeWhile_append1 [where P = is_ul])
      have dw: "dropWhile is_ul (?xs @ ys) = dropWhile is_ul ?xs @ ys"
        using ex by (rule dropWhile_append1 [where P = is_ul])
      from ex have ne: "dropWhile is_ul ?xs \<noteq> []"
        by (auto simp del: dropWhile.simps simp: dropWhile_eq_Nil_conv)
      have "last (dropWhile is_ul ?xs) = last ?xs"
        using ne by (metis takeWhile_dropWhile_id last_appendR)
      with "2.prems" ne have "\<not> cuts_run (dropWhile is_ul ?xs) ys"
        by (auto simp: cuts_run_def)
      from "2.IH"(1) [OF True this]
      have "scan_lines (dropWhile is_ul ?xs @ ys) = scan_lines (dropWhile is_ul ?xs) @ scan_lines ys" .
      then show ?thesis
        using True tw dw by (simp del: takeWhile.simps dropWhile.simps)
    qed
  next
    case nul: False
    show ?thesis
    proof (cases "is_ol l")
      case True
      show ?thesis
      proof (cases "\<forall>x \<in> set ?xs. is_ol x")
        case all: True
        then have "is_ol (last ?xs)" by (metis last_in_set list.distinct(1))
        with "2.prems" have "ys = [] \<or> \<not> is_ol (hd ys)"
          by (auto simp: cuts_run_def)
        with all have "scan_lines (?xs @ ys) = ol_block ?xs # scan_lines ys"
          by (intro scan_lines_ol_run) auto
        moreover from all have "scan_lines (?xs @ []) = ol_block ?xs # scan_lines []"
          by (intro scan_lines_ol_run) auto
        ultimately show ?thesis by simp
      next
        case False
        then obtain x where ex: "x \<in> set ?xs" "\<not> is_ol x" by blast
        have tw: "takeWhile is_ol (?xs @ ys) = takeWhile is_ol ?xs"
          using ex by (rule takeWhile_append1 [where P = is_ol])
        have dw: "dropWhile is_ol (?xs @ ys) = dropWhile is_ol ?xs @ ys"
          using ex by (rule dropWhile_append1 [where P = is_ol])
        from ex have ne: "dropWhile is_ol ?xs \<noteq> []"
          by (auto simp del: dropWhile.simps simp: dropWhile_eq_Nil_conv)
        have "last (dropWhile is_ol ?xs) = last ?xs"
          using ne by (metis takeWhile_dropWhile_id last_appendR)
        with "2.prems" ne have "\<not> cuts_run (dropWhile is_ol ?xs) ys"
          by (auto simp: cuts_run_def)
        from "2.IH"(2) [OF nul True this]
        have "scan_lines (dropWhile is_ol ?xs @ ys) = scan_lines (dropWhile is_ol ?xs) @ scan_lines ys" .
        then show ?thesis
          using nul True tw dw by (simp del: takeWhile.simps dropWhile.simps)
      qed
    next
      case False
      have "\<not> cuts_run ls ys"
        using "2.prems" nul False by (cases ls) (auto simp: cuts_run_def)
      from "2.IH"(3) [OF nul False this] nul False show ?thesis by simp
    qed
  qed
qed


lemma dropWhile_space_prefix:
  "\<forall>x \<in> set ws. is_space x \<Longrightarrow> dropWhile is_space (ws @ r) = dropWhile is_space r"
  by (induction ws) auto

lemma py_strip_dropWhile: "py_strip (dropWhile is_space c) = py_strip c"
  by (simp add: py_strip_def)

lemma ul_rest_shape:
  assumes "\<forall>x \<in> set ws. is_space x" and "sp \<noteq> []" and "\<forall>x \<in> set sp. is_space x"
  shows "ul_rest (ws @ ''-'' @ sp @ c) = Some (dropWhile is_space c)"
proof -
  have "dropWhile is_space (ws @ ''-'' @ sp @ c) = ''-'' @ sp @ c"
    using assms(1) by (simp add: dropWhile_space_prefix)
  moreover have "is_space (hd (sp @ c))"
    using assms(2,3) by (cases sp) auto
  moreover have "dropWhile is_space (sp @ c) = dropWhile is_space c"
    using assms(3) by (rule dropWhile_space_prefix)
  ultimately show ?thesis
    using assms(2) by (simp add: ul_rest_def)
qed

lemma ul_rest_shapeD:
  assumes "ul_rest l = Some r"
  shows "\<exists>ws sp c. l = ws @ ''-'' @ sp @ c \<and> (\<forall>x \<in> set ws. is_space x) \<and> sp \<noteq> []
           \<and> (\<forall>x \<in> set sp. is_space x)"
proof -
  from assms obtain t where dw: "dropWhile is_space l = CHR ''-'' # t" and "t \<noteq> []" "is_space (hd t)"
    by (auto simp: ul_rest_def split: list.splits if_splits)
  then obtain a c where t: "t = a # c" and "is_space a"
    by (cases t) auto
  have "l = takeWhile is_space l @ ''-'' @ [a] @ c"
    using dw t by (metis append_Cons append_Nil takeWhile_dropWhile_id)
  moreover have "\<forall>x \<in> set (takeWhile is_space l). is_space x"
    by (auto dest: set_takeWhileD)
  ultimately show ?thesis
    using \<open>is_space a\<close> by (intro exI [of _ "takeWhile is_space l"] exI [of _ "[a]"] exI [of _ c]) simp
qed

lemma is_ul_shape:
  "is_ul l \<longleftrightarrow>
     (\<exists>ws sp c. l = ws @ ''-'' @ sp @ c \<and> (\<forall>x \<in> set ws. is_space x) \<and> sp \<noteq> []
        \<and> (\<forall>x \<in> set sp. is_space x))"
proof
  assume "is_ul l"
  then obtain r where "ul_rest l = Some r" by (auto simp: is_ul_def)
  then show "\<exists>ws sp c. l = ws @ ''-'' @ sp @ c \<and> (\<forall>x \<in> set ws. is_space x) \<and> sp \<noteq> []
        \<and> (\<forall>x \<in> set sp. is_space x)"
    by (rule ul_rest_shapeD)
next
  assume "\<exists>ws sp c. l = ws @ ''-'' @ sp @ c \<and> (\<forall>x \<in> set ws. is_space x) \<and> sp \<noteq> []
        \<and> (\<forall>x \<in> set sp. is_space x)"
  then show "is_ul l"
    by (auto simp: is_ul_def ul_rest_shape simp del: append.simps)
qed

lemma ul_item_shape:
  assumes "\<forall>x \<in> set ws. is_space x" and "sp \<noteq> []" and "\<forall>x \<in> set sp. is_space x"
  shows "ul_item (ws @ ''-'' @ sp @ c) = ''<li>'' @ py_strip c @ ''</li>''"
  unfolding ul_item_def ul_rest_shape [OF assms] by (simp add: py_strip_dropWhile)

lemma takeWhile_digit_prefix:
  "\<forall>x \<in> set ds. is_digit x \<Longrightarrow> \<not> is_digit d \<Longrightarrow> takeWhile is_digit (ds @ d # r) = ds"
  by (induction ds) auto

lemma dropWhile_digit_prefix:
  "\<forall>x \<in> set ds. is_digit x \<Longrightarrow> \<not> is_digit d \<Longrightarrow> dropWhile is_digit (ds @ d # r) = d # r"
  by (induction ds) auto

lemma is_digit_marks [simp]: "\<not> is_digit (CHR ''.'')" "\<not> is_digit (CHR '')'')"
  by (simp_all add: is_digit_def)

lemma ol_rest_shape:
  assumes "\<forall>x \<in> set ws. is_space x" and "ds \<noteq> []" and "\<forall>x \<in> set ds. is_digit x"
    and "d = CHR ''.'' \<or> d = CHR '')''" and "sp \<noteq> []" and "\<forall>x \<in> set sp. is_space x"
  shows "ol_rest (ws @ ds @ [d] @ sp @ c) = Some (dropWhile is_space c)"
proof -
  have "\<not> is_space (hd ds)"
    using assms(2,3) by (cases ds) (auto dest: digit_not_space)
  then have "dropWhile is_space (ds @ [d] @ sp @ c) = ds @ [d] @ sp @ c"
    using assms(2) by (cases ds) auto
  then have s: "dropWhile is_space (ws @ ds @ [d] @ sp @ c) = ds @ d # sp @ c"
    using assms(1) by (simp add: dropWhile_space_prefix)
  have nd: "\<not> is_digit d" using assms(4) by auto
  have tw: "takeWhile is_digit (ds @ d # sp @ c) = ds"
    using assms(3) nd by (rule takeWhile_digit_prefix)
  have dw: "dropWhile is_digit (ds @ d # sp @ c) = d # sp @ c"
    using assms(3) nd by (rule dropWhile_digit_prefix)
  have sp: "is_space (hd (sp @ c))"
    using assms(5,6) by (cases sp) auto
  have rest: "dropWhile is_space (sp @ c) = dropWhile is_space c"
    using assms(6) by (rule dropWhile_space_prefix)
  show ?thesis
    unfolding ol_rest_def s Let_def tw dw
    using assms(2,4,5) sp rest by simp
qed

lemma ol_rest_shapeD:
  assumes "ol_rest l = Some r"
  shows "\<exists>ws ds d sp c. l = ws @ ds @ [d] @ sp @ c \<and> (\<forall>x \<in> set ws. is_space x) \<and> ds \<noteq> []
           \<and> (\<forall>x \<in> set ds. is_digit x) \<and> (d = CHR ''.'' \<or> d = CHR '')'') \<and> sp \<noteq> []
           \<and> (\<forall>x \<in> set sp. is_space x)"
proof -
  let ?s = "dropWhile is_space l"
  from assms obtain d t where ds: "takeWhile is_digit ?s \<noteq> []"
    and dw: "dropWhile is_digit ?s = d # t" and d: "d = CHR ''.'' \<or> d = CHR '')''"
    and "t \<noteq> []" "is_space (hd t)"
    by (auto simp: ol_rest_def Let_def split: list.splits if_splits)
  then obtain a c where t: "t = a # c" and "is_space a"
    by (cases t) auto
  have "?s = takeWhile is_digit ?s @ [d] @ [a] @ c"
    using dw t by (metis append_Cons append_Nil takeWhile_dropWhile_id)
  then have "l = takeWhile is_space l @ takeWhile is_digit ?s @ [d] @ [a] @ c"
    by (metis takeWhile_dropWhile_id)
  moreover have "\<forall>x \<in> set (takeWhile is_space l). is_space x"
    and "\<forall>x \<in> set (takeWhile is_digit ?s). is_digit x"
    by (auto dest: set_takeWhileD)
  ultimately show ?thesis
    using \<open>is_space a\<close> ds d
    by (intro exI [of _ "takeWhile is_space l"] exI [of _ "takeWhile is_digit ?s"]
        exI [of _ d] exI [of _ "[a]"] exI [of _ c]) simp
qed

lemma is_ol_shape:
  "is_ol l \<longleftrightarrow>
     (\<exists>ws ds d sp c. l = ws @ ds @ [d] @ sp @ c \<and> (\<forall>x \<in> set ws. is_space x) \<and> ds \<noteq> []
        \<and> (\<forall>x \<in> set ds. is_digit x) \<and> (d = CHR ''.'' \<or> d = CHR '')'') \<and> sp \<noteq> []
        \<and> (\<forall>x \<in> set sp. is_space x))"
proof
  assume "is_ol l"
  then obtain r where "ol_rest l = Some r" by (auto simp: is_ol_def)
  then show "\<exists>ws ds d sp c. l = ws @ ds @ [d] @ sp @ c \<and> (\<forall>x \<in> set ws. is_space x) \<and> ds \<noteq> []
        \<and> (\<forall>x \<in> set ds. is_digit x) \<and> (d = CHR ''.'' \<or> d = CHR '')'') \<and> sp \<noteq> []
        \<and> (\<forall>x \<in> set sp. is_space x)"
    by (rule ol_rest_shapeD)
next
  assume "\<exists>ws ds d sp c. l = ws @ ds @ [d] @ sp @ c \<and> (\<forall>x \<in> set ws. is_space x) \<and> ds \<noteq> []
        \<and> (\<forall>x \<in> set ds. is_digit x) \<and> (d = CHR ''.'' \<or> d = CHR '')'') \<and> sp \<noteq> []
        \<and> (\<forall>x \<in> set sp. is_space x)"
  then obtain ws ds d sp c where "l = ws @ ds @ [d] @ sp @ c" "\<forall>x \<in> set ws. is_space x" "ds \<noteq> []"
        "\<forall>x \<in> set ds. is_digit x" "d = CHR ''.'' \<or> d = CHR '')''" "sp \<noteq> []"
        "\<forall>x \<in> set sp. is_space x" by blast
  then show "is_ol l"
    using ol_rest_shape [of ws ds d sp c] by (simp add: is_ol_def)
qed

lemma ol_item_shape:
  assumes "\<forall>x \<in> set ws. is_space x" and "ds \<noteq> []" and "\<forall>x \<in> set ds. is_digit x"
    and "d = CHR ''.'' \<or> d = CHR '')''" and "sp \<noteq> []" and "\<forall>x \<in> set sp. is_space x"
  shows "ol_item (ws @ ds @ [d] @ sp @ c) = ''<li>'' @ py_strip c @ ''</li>''"
  unfolding ol_item_def ol_rest_shape [OF assms] by (simp add: py_strip_dropWhile)

lemma translate_ul_example:
  "convert_markup_to_html (CStr ''- a\<newline>- b\<newline>- c'') = ''<ul><li>a</li><li>b</li><li>c</li></ul>''"
  by code_simp

lemma translate_ol_example:
  "convert_markup_to_html (CStr ''1. x\<newline>2. y'') = ''<ol><li>x</li><li>y</li></ol>''"
  by code_simp

text \<open>
  C4. In the line scan of the translator, every maximal contiguous run of lines that
  match optional leading whitespace, a hyphen, at least one whitespace character and
  then the content becomes exactly one unordered-list block, with one item per line of
  the run, in order (first two conjuncts: the lines before and after the run are scanned
  on their own, and the run gives the one block between them). The same holds for the
  lines that start with digits and a dot or a closing parenthesis, which give one
  ordered-list block. The third and fourth conjunct say which lines these are, the fifth
  and sixth that an item is the content behind the marker, stripped. The last two are
  the examples of the specification: three bullet lines give one list of the three
  items a, b, c, and two numbered lines one list of x, y.
\<close>

theorem list_runs_become_blocks:
  "(\<forall>pre run post.
      run \<noteq> [] \<and> (\<forall>l \<in> set run. is_ul l)
        \<and> (pre = [] \<or> \<not> is_ul (last pre)) \<and> (post = [] \<or> \<not> is_ul (hd post))
      \<longrightarrow> scan_lines (pre @ run @ post) =
            scan_lines pre @ [''<ul>'' @ concat (map ul_item run) @ ''</ul>''] @ scan_lines post)
   \<and> (\<forall>pre run post.
      run \<noteq> [] \<and> (\<forall>l \<in> set run. is_ol l)
        \<and> (pre = [] \<or> \<not> is_ol (last pre)) \<and> (post = [] \<or> \<not> is_ol (hd post))
      \<longrightarrow> scan_lines (pre @ run @ post) =
            scan_lines pre @ [''<ol>'' @ concat (map ol_item run) @ ''</ol>''] @ scan_lines post)
   \<and> (\<forall>l. is_ul l \<longleftrightarrow>
         (\<exists>ws sp c. l = ws @ ''-'' @ sp @ c \<and> (\<forall>x \<in> set ws. is_space x) \<and> sp \<noteq> []
            \<and> (\<forall>x \<in> set sp. is_space x)))
   \<and> (\<forall>l. is_ol l \<longleftrightarrow>
         (\<exists>ws ds d sp c. l = ws @ ds @ [d] @ sp @ c \<and> (\<forall>x \<in> set ws. is_space x) \<and> ds \<noteq> []
            \<and> (\<forall>x \<in> set ds. is_digit x) \<and> (d = CHR ''.'' \<or> d = CHR '')'') \<and> sp \<noteq> []
            \<and> (\<forall>x \<in> set sp. is_space x)))
   \<and> (\<forall>ws sp c.
         (\<forall>x \<in> set ws. is_space x) \<and> sp \<noteq> [] \<and> (\<forall>x \<in> set sp. is_space x)
         \<longrightarrow> ul_item (ws @ ''-'' @ sp @ c) = ''<li>'' @ py_strip c @ ''</li>'')
   \<and> (\<forall>ws ds d sp c.
         (\<forall>x \<in> set ws. is_space x) \<and> ds \<noteq> [] \<and> (\<forall>x \<in> set ds. is_digit x)
           \<and> (d = CHR ''.'' \<or> d = CHR '')'') \<and> sp \<noteq> [] \<and> (\<forall>x \<in> set sp. is_space x)
         \<longrightarrow> ol_item (ws @ ds @ [d] @ sp @ c) = ''<li>'' @ py_strip c @ ''</li>'')
   \<and> convert_markup_to_html (CStr ''- a\<newline>- b\<newline>- c'') = ''<ul><li>a</li><li>b</li><li>c</li></ul>''
   \<and> convert_markup_to_html (CStr ''1. x\<newline>2. y'') = ''<ol><li>x</li><li>y</li></ol>''"
proof (intro conjI allI impI)
  fix pre run post :: "string list"
  assume h: "run \<noteq> [] \<and> (\<forall>l \<in> set run. is_ul l)
        \<and> (pre = [] \<or> \<not> is_ul (last pre)) \<and> (post = [] \<or> \<not> is_ul (hd post))"
  then have "\<not> cuts_run pre (run @ post)"
    by (cases run) (auto simp: cuts_run_def dest: ul_not_ol)
  then have "scan_lines (pre @ run @ post) = scan_lines pre @ scan_lines (run @ post)"
    by (rule scan_lines_append)
  moreover from h have "scan_lines (run @ post) = ul_block run # scan_lines post"
    by (intro scan_lines_ul_run) auto
  ultimately show "scan_lines (pre @ run @ post) =
      scan_lines pre @ [''<ul>'' @ concat (map ul_item run) @ ''</ul>''] @ scan_lines post"
    by (simp add: ul_block_def)
next
  fix pre run post :: "string list"
  assume h: "run \<noteq> [] \<and> (\<forall>l \<in> set run. is_ol l)
        \<and> (pre = [] \<or> \<not> is_ol (last pre)) \<and> (post = [] \<or> \<not> is_ol (hd post))"
  then have "\<not> cuts_run pre (run @ post)"
    by (cases run) (auto simp: cuts_run_def dest: ul_not_ol)
  then have "scan_lines (pre @ run @ post) = scan_lines pre @ scan_lines (run @ post)"
    by (rule scan_lines_append)
  moreover from h have "scan_lines (run @ post) = ol_block run # scan_lines post"
    by (intro scan_lines_ol_run) auto
  ultimately show "scan_lines (pre @ run @ post) =
      scan_lines pre @ [''<ol>'' @ concat (map ol_item run) @ ''</ol>''] @ scan_lines post"
    by (simp add: ol_block_def)
next
  fix l
  show "is_ul l \<longleftrightarrow>
         (\<exists>ws sp c. l = ws @ ''-'' @ sp @ c \<and> (\<forall>x \<in> set ws. is_space x) \<and> sp \<noteq> []
            \<and> (\<forall>x \<in> set sp. is_space x))"
    by (rule is_ul_shape)
next
  fix l
  show "is_ol l \<longleftrightarrow>
         (\<exists>ws ds d sp c. l = ws @ ds @ [d] @ sp @ c \<and> (\<forall>x \<in> set ws. is_space x) \<and> ds \<noteq> []
            \<and> (\<forall>x \<in> set ds. is_digit x) \<and> (d = CHR ''.'' \<or> d = CHR '')'') \<and> sp \<noteq> []
            \<and> (\<forall>x \<in> set sp. is_space x))"
    by (rule is_ol_shape)
next
  fix ws sp c
  assume "(\<forall>x \<in> set ws. is_space x) \<and> sp \<noteq> [] \<and> (\<forall>x \<in> set sp. is_space x)"
  then show "ul_item (ws @ ''-'' @ sp @ c) = ''<li>'' @ py_strip c @ ''</li>''"
    by (intro ul_item_shape) auto
next
  fix ws ds d sp c
  assume "(\<forall>x \<in> set ws. is_space x) \<and> ds \<noteq> [] \<and> (\<forall>x \<in> set ds. is_digit x)
           \<and> (d = CHR ''.'' \<or> d = CHR '')'') \<and> sp \<noteq> [] \<and> (\<forall>x \<in> set sp. is_space x)"
  then show "ol_item (ws @ ds @ [d] @ sp @ c) = ''<li>'' @ py_strip c @ ''</li>''"
    by (intro ol_item_shape) auto
next
  show "convert_markup_to_html (CStr ''- a\<newline>- b\<newline>- c'') = ''<ul><li>a</li><li>b</li><li>c</li></ul>''"
    by (rule translate_ul_example)
next
  show "convert_markup_to_html (CStr ''1. x\<newline>2. y'') = ''<ol><li>x</li><li>y</li></ol>''"
    by (rule translate_ol_example)
qed

theorem list_runs_become_blocks_witness:
  "is_ul ''- a'' \<and> is_ul '' -  b '' \<and> \<not> is_ul ''x'' \<and> \<not> is_ul ''1. y''
   \<and> scan_lines [''x'', ''- a'', '' -  b '', ''1. y''] =
       [''x'', ''<ul><li>a</li><li>b</li></ul>'', ''<ol><li>y</li></ol>'']
   \<and> is_ol ''1. x'' \<and> is_ol '' 22)  y'' \<and> \<not> is_ol ''- w'' \<and> \<not> is_ol ''3.z''
   \<and> scan_lines [''- w'', ''1. x'', '' 22)  y'', ''3.z''] =
       [''<ul><li>w</li></ul>'', ''<ol><li>x</li><li>y</li></ol>'', ''3.z'']"
proof -
  have u: "[''- a'', '' -  b ''] \<noteq> [] \<and> (\<forall>l \<in> set [''- a'', '' -  b '']. is_ul l)
      \<and> ([''x''] = [] \<or> \<not> is_ul (last [''x'']))
      \<and> ([''1. y''] = [] \<or> \<not> is_ul (hd [''1. y'']))"
    by code_simp
  have "scan_lines ([''x''] @ [''- a'', '' -  b ''] @ [''1. y'']) =
      scan_lines [''x''] @ [''<ul>'' @ concat (map ul_item [''- a'', '' -  b '']) @ ''</ul>'']
        @ scan_lines [''1. y'']"
    by (rule list_runs_become_blocks [THEN conjunct1, rule_format, OF u])
  also have "\<dots> = [''x'', ''<ul><li>a</li><li>b</li></ul>'', ''<ol><li>y</li></ol>'']"
    by code_simp
  finally have a: "scan_lines [''x'', ''- a'', '' -  b '', ''1. y''] =
      [''x'', ''<ul><li>a</li><li>b</li></ul>'', ''<ol><li>y</li></ol>'']"
    by simp
  have o: "[''1. x'', '' 22)  y''] \<noteq> [] \<and> (\<forall>l \<in> set [''1. x'', '' 22)  y'']. is_ol l)
      \<and> ([''- w''] = [] \<or> \<not> is_ol (last [''- w'']))
      \<and> ([''3.z''] = [] \<or> \<not> is_ol (hd [''3.z'']))"
    by code_simp
  have "scan_lines ([''- w''] @ [''1. x'', '' 22)  y''] @ [''3.z'']) =
      scan_lines [''- w''] @ [''<ol>'' @ concat (map ol_item [''1. x'', '' 22)  y'']) @ ''</ol>'']
        @ scan_lines [''3.z'']"
    by (rule list_runs_become_blocks [THEN conjunct2, THEN conjunct1, rule_format, OF o])
  also have "\<dots> = [''<ul><li>w</li></ul>'', ''<ol><li>x</li><li>y</li></ol>'', ''3.z'']"
    by code_simp
  finally have b: "scan_lines [''- w'', ''1. x'', '' 22)  y'', ''3.z''] =
      [''<ul><li>w</li></ul>'', ''<ol><li>x</li><li>y</li></ol>'', ''3.z'']"
    by simp
  from u o a b show ?thesis by simp
qed

end
